theory Spec2Isabelle
  imports Complex_Main "HOL-Library.Sublist"
begin

section \<open>Strings of the source language\<close>

text \<open>
  A Python \<^verbatim>\<open>str\<close> is a sequence of Unicode code points, and \<^verbatim>\<open>len\<close> counts code
  points. A text is therefore a list of code points; \<open>str\<close> reads an ASCII literal.
  A \<^verbatim>\<open>bytes\<close> value is a list of 8-bit characters.
\<close>

type_synonym pystr = "nat list"

type_synonym bytes = "char list"

definition str :: "string \<Rightarrow> pystr" where
  "str s = map of_char s"

text \<open>
  The whitespace of \<^verbatim>\<open>str.strip()\<close> without argument: the code points for which
  \<^verbatim>\<open>str.isspace\<close> holds (tab to carriage return, the four ASCII separators, space,
  NEL, no-break space, and the Unicode space separators and line/paragraph separators).
\<close>

definition isspace :: "nat \<Rightarrow> bool" where
  "isspace c \<longleftrightarrow>
     (9 \<le> c \<and> c \<le> 13) \<or> (28 \<le> c \<and> c \<le> 32) \<or> c = 133 \<or> c = 160 \<or> c = 5760 \<or>
     (8192 \<le> c \<and> c \<le> 8202) \<or> c = 8232 \<or> c = 8233 \<or> c = 8239 \<or> c = 8287 \<or> c = 12288"

definition strip :: "pystr \<Rightarrow> pystr" where
  "strip s = rev (dropWhile isspace (rev (dropWhile isspace s)))"

text \<open>\<^verbatim>\<open>sep.join(xs)\<close>\<close>

fun str_join :: "pystr \<Rightarrow> pystr list \<Rightarrow> pystr" where
  "str_join sep [] = []"
| "str_join sep [x] = x"
| "str_join sep (x # y # ys) = x @ sep @ str_join sep (y # ys)"

text \<open>\<^verbatim>\<open>s.startswith(p)\<close>\<close>

definition startswith :: "pystr \<Rightarrow> pystr \<Rightarrow> bool" where
  "startswith s p \<longleftrightarrow> take (length p) s = p"

text \<open>
  The slice \<^verbatim>\<open>xs[:k]\<close>: a negative bound counts from the end of the list.
\<close>

definition py_take :: "int \<Rightarrow> 'a list \<Rightarrow> 'a list" where
  "py_take k xs = (if k < 0 then take (length xs - nat (- k)) xs else take (nat k) xs)"

text \<open>\<^verbatim>\<open>xs[i]\<close> for an index that is not negative: out of range raises.\<close>

datatype py_error = IndexError

definition py_index :: "'a list \<Rightarrow> nat \<Rightarrow> py_error + 'a" where
  "py_index xs i = (if i < length xs then Inr (xs ! i) else Inl IndexError)"

text \<open>
  \<^verbatim>\<open>[xs[i] for i in idxs]\<close>: the first index out of range raises and ends the
  comprehension.
\<close>

fun py_select :: "'a list \<Rightarrow> nat list \<Rightarrow> py_error + 'a list" where
  "py_select xs [] = Inr []"
| "py_select xs (i # is) =
     (case py_index xs i of
        Inl e \<Rightarrow> Inl e
      | Inr x \<Rightarrow> (case py_select xs is of Inl e \<Rightarrow> Inl e | Inr ys \<Rightarrow> Inr (x # ys)))"

section \<open>Dictionaries\<close>

text \<open>
  A \<^verbatim>\<open>dict\<close> keeps its keys in insertion order, and \<^verbatim>\<open>sorted\<close> reads them in that
  order: a dictionary is an association list with distinct keys.
  \<open>dict_incr\<close> is \<^verbatim>\<open>freq[k] += 1\<close> on a \<^verbatim>\<open>defaultdict(int)\<close>: a missing key is
  inserted at the end with the count 1.
\<close>

type_synonym ('k, 'v) dict = "('k \<times> 'v) list"

fun dict_incr :: "'k \<Rightarrow> ('k, int) dict \<Rightarrow> ('k, int) dict" where
  "dict_incr k [] = [(k, 1)]"
| "dict_incr k ((k', v) # kvs) =
     (if k = k' then (k', v + 1) # kvs else (k', v) # dict_incr k kvs)"

text \<open>\<^verbatim>\<open>d.get(k, default)\<close>\<close>

definition dict_get :: "('k, 'v) dict \<Rightarrow> 'k \<Rightarrow> 'v \<Rightarrow> 'v" where
  "dict_get d k dflt = (case map_of d k of None \<Rightarrow> dflt | Some v \<Rightarrow> v)"

section \<open>The natural-language toolkit\<close>

text \<open>
  The word tokenizer, the sentence tokenizer and the English stopword list belong to
  an external library (NLTK) and are loaded at start-up. The functions of the
  summarizer are stated for any such three.
\<close>

record nlp =
  word_tokenize :: "pystr \<Rightarrow> pystr list"
  sent_tokenize :: "pystr \<Rightarrow> pystr list"
  STOPWORDS :: "pystr set"

section \<open>Summarizer: extractive, frequency-based\<close>

text \<open>
  \<^verbatim>\<open>re.sub(r'[^a-zA-Z0-9]', '', w).lower()\<close>: what is left after the substitution
  is ASCII letters and digits, on which \<^verbatim>\<open>lower\<close> moves A..Z to a..z.
\<close>

definition is_alnum :: "nat \<Rightarrow> bool" where
  "is_alnum c \<longleftrightarrow> (97 \<le> c \<and> c \<le> 122) \<or> (65 \<le> c \<and> c \<le> 90) \<or> (48 \<le> c \<and> c \<le> 57)"

definition lower :: "nat \<Rightarrow> nat" where
  "lower c = (if 65 \<le> c \<and> c \<le> 90 then c + 32 else c)"

definition normalize_word :: "pystr \<Rightarrow> pystr" where
  "normalize_word w = map lower (filter is_alnum w)"

fun build_word_freq_loop :: "nlp \<Rightarrow> pystr list \<Rightarrow> (pystr, int) dict \<Rightarrow> (pystr, int) dict" where
  "build_word_freq_loop env [] freq = freq"
| "build_word_freq_loop env (w # ws) freq =
     (let nw = normalize_word w in
      if nw = [] then build_word_freq_loop env ws freq
      else if nw \<in> STOPWORDS env then build_word_freq_loop env ws freq
      else build_word_freq_loop env ws (dict_incr nw freq))"

definition build_word_freq :: "nlp \<Rightarrow> pystr \<Rightarrow> (pystr, int) dict" where
  "build_word_freq env text = build_word_freq_loop env (word_tokenize env text) []"

text \<open>
  The inner loop of \<^verbatim>\<open>score_sentences\<close>. The source accumulates a float and divides
  in double precision; the model computes the same quotient exactly.
\<close>

fun score_loop :: "(pystr, int) dict \<Rightarrow> pystr list \<Rightarrow> rat \<Rightarrow> rat" where
  "score_loop freq [] score = score"
| "score_loop freq (w # ws) score =
     (let nw = normalize_word w in
      if nw = [] then score_loop freq ws score
      else score_loop freq ws (score + of_int (dict_get freq nw 0)))"

definition sentence_score :: "nlp \<Rightarrow> (pystr, int) dict \<Rightarrow> pystr \<Rightarrow> rat" where
  "sentence_score env freq sent =
     (let words = word_tokenize env sent
      in score_loop freq words 0 / of_nat (length words + 1))"

definition score_sentences :: "nlp \<Rightarrow> pystr list \<Rightarrow> (pystr, int) dict \<Rightarrow> (nat, rat) dict" where
  "score_sentences env sentences freq =
     map (\<lambda>(idx, sent). (idx, sentence_score env freq sent)) (enumerate 0 sentences)"

text \<open>
  \<^verbatim>\<open>sorted(scores, key=lambda i: scores[i], reverse=True)\<close>: the keys in descending
  order of their score; the sort is stable, also under \<^verbatim>\<open>reverse\<close>, so keys of equal
  score keep their insertion order.
\<close>

definition sorted_desc :: "(nat, rat) dict \<Rightarrow> nat list" where
  "sorted_desc scores = map fst (sort_key (\<lambda>(i, s). - s) scores)"

definition extractive_summarize :: "nlp \<Rightarrow> pystr \<Rightarrow> int \<Rightarrow> py_error + pystr" where
  "extractive_summarize env text max_sentences =
     (if text = [] \<or> length (strip text) < 50 then Inr (strip text)
      else
        let sentences = sent_tokenize env text in
        if int (length sentences) \<le> max_sentences then Inr (str_join (str ''\<newline>\<newline>'') sentences)
        else
          let freq = build_word_freq env text in
          if freq = [] then Inr (str_join (str ''\<newline>\<newline>'') (py_take max_sentences sentences))
          else
            let scores = score_sentences env sentences freq;
                top_idxs = py_take max_sentences (sorted_desc scores);
                top_idxs_sorted = sort top_idxs
            in case py_select sentences top_idxs_sorted of
                 Inl e \<Rightarrow> Inl e
               | Inr selected \<Rightarrow> Inr (str_join (str ''\<newline>\<newline>'') selected))"

text \<open>
  What the data model asks of an entry of a frequency model: the key is no stopword,
  is not empty and is made of lower-case letters and digits; the count is positive.
\<close>

definition model_entry :: "nlp \<Rightarrow> pystr \<times> int \<Rightarrow> bool" where
  "model_entry env e \<longleftrightarrow>
     fst e \<notin> STOPWORDS env \<and> fst e \<noteq> [] \<and>
     (\<forall>ch\<in>set (fst e). (97 \<le> ch \<and> ch \<le> 122) \<or> (48 \<le> ch \<and> ch \<le> 57)) \<and> 0 < snd e"

section \<open>Text extraction\<close>

text \<open>
  The PDF reader, the image decoder and the OCR engine are external libraries; each
  call either returns or raises. What they raise is an instance of \<^verbatim>\<open>Exception\<close>,
  the class the handlers of the extractor name; \<^verbatim>\<open>UnidentifiedImageError\<close> has a
  handler of its own. Iterating over the pages of a reader yields a page or raises.
\<close>

datatype exn = UnidentifiedImageError | Exception pystr

record ('page, 'img) libs =
  b64decode :: "pystr \<Rightarrow> exn + bytes"
  PdfReader :: "bytes \<Rightarrow> exn + (exn + 'page) list"
  page_extract_text :: "'page \<Rightarrow> exn + pystr option"
  Image_open :: "bytes \<Rightarrow> exn + 'img"
  convert_RGB :: "'img \<Rightarrow> exn + 'img"
  image_to_string :: "'img \<Rightarrow> exn + pystr"

text \<open>
  The body of the inner \<^verbatim>\<open>try\<close>: the handler turns a page that raises into the
  empty text, and \<^verbatim>\<open>page.extract_text() or ""\<close> does the same for a page without
  text.
\<close>

definition page_text :: "('page, 'img) libs \<Rightarrow> 'page \<Rightarrow> pystr" where
  "page_text L page =
     (case page_extract_text L page of
        Inl e \<Rightarrow> []
      | Inr None \<Rightarrow> []
      | Inr (Some t) \<Rightarrow> t)"

text \<open>
  The loop over the pages, inside the outer \<^verbatim>\<open>try\<close>. An exception of the iterator
  itself leaves the loop.
\<close>

fun pdf_pages_loop ::
  "('page, 'img) libs \<Rightarrow> (exn + 'page) list \<Rightarrow> pystr list \<Rightarrow> exn + pystr list" where
  "pdf_pages_loop L [] texts = Inr texts"
| "pdf_pages_loop L (Inl e # pages) texts = Inl e"
| "pdf_pages_loop L (Inr page # pages) texts =
     (let txt = page_text L page
      in if txt \<noteq> [] then pdf_pages_loop L pages (texts @ [txt])
         else pdf_pages_loop L pages texts)"

definition extract_text_from_pdf_bytes :: "('page, 'img) libs \<Rightarrow> bytes \<Rightarrow> exn + pystr" where
  "extract_text_from_pdf_bytes L file_bytes =
     (case (case PdfReader L file_bytes of
              Inl e \<Rightarrow> Inl e
            | Inr pages \<Rightarrow> pdf_pages_loop L pages []) of
        Inr texts \<Rightarrow> Inr (strip (str_join (str ''\<newline>'') texts))
      | Inl e \<Rightarrow> Inr [])"

definition extract_text_from_image_bytes :: "('page, 'img) libs \<Rightarrow> bytes \<Rightarrow> exn + pystr" where
  "extract_text_from_image_bytes L file_bytes =
     (case (case Image_open L file_bytes of
              Inl e \<Rightarrow> Inl e
            | Inr opened \<Rightarrow>
                (case convert_RGB L opened of
                   Inl e \<Rightarrow> Inl e
                 | Inr img \<Rightarrow> image_to_string L img)) of
        Inr text \<Rightarrow> Inr (strip text)
      | Inl UnidentifiedImageError \<Rightarrow> Inr []
      | Inl (Exception e) \<Rightarrow> Inr [])"

definition extract_text :: "('page, 'img) libs \<Rightarrow> pystr \<Rightarrow> bytes \<Rightarrow> exn + pystr" where
  "extract_text L mime_type file_bytes =
     (let fallthrough =
        (if startswith mime_type (str ''image/'') then extract_text_from_image_bytes L file_bytes
         else
           (case extract_text_from_pdf_bytes L file_bytes of
              Inl e \<Rightarrow> Inl e
            | Inr text \<Rightarrow>
                if text \<noteq> [] then Inr text else extract_text_from_image_bytes L file_bytes))
      in if mime_type = str ''application/pdf'' \<or> mime_type = str ''application/x-pdf'' then
           (case extract_text_from_pdf_bytes L file_bytes of
              Inl e \<Rightarrow> Inl e
            | Inr text \<Rightarrow> if text \<noteq> [] then Inr text else fallthrough)
         else fallthrough)"

section \<open>The summarize route\<close>

text \<open>
  A part of the payload is a dictionary with an \<^verbatim>\<open>inlineData\<close> entry (its
  \<^verbatim>\<open>mimeType\<close> and its \<^verbatim>\<open>data\<close>, either of which may be absent), or else one with
  a \<^verbatim>\<open>text\<close> entry, or neither. A request is a body that is not JSON, or a payload
  whose \<^verbatim>\<open>contents\<close> may be absent.
\<close>

datatype part = InlineData "pystr option" "pystr option" | TextPart pystr | OtherPart

datatype request = InvalidJSON | Payload "part list list option"

datatype response =
    HTTPException nat pystr
  | NoTextResponse
  | SummaryResponse pystr nat pystr
  | Unhandled

record scan_state =
  file_bytes :: "bytes option"
  mime_type :: "pystr option"
  prompt_text :: "pystr option"

fun scan_parts ::
  "('page, 'img) libs \<Rightarrow> part list \<Rightarrow> scan_state \<Rightarrow> response + scan_state" where
  "scan_parts L [] st = Inr st"
| "scan_parts L (InlineData mt data # parts) st =
     (let st' = st\<lparr>mime_type := mt\<rparr> in
      case data of
        None \<Rightarrow> scan_parts L parts st'
      | Some b64 \<Rightarrow>
          if b64 = [] then scan_parts L parts st'
          else
            (case b64decode L b64 of
               Inl e \<Rightarrow> Inl (HTTPException 400 (str ''Invalid base64 data''))
             | Inr decoded \<Rightarrow> scan_parts L parts (st'\<lparr>file_bytes := Some decoded\<rparr>)))"
| "scan_parts L (TextPart t # parts) st =
     (if prompt_text st = None \<or> prompt_text st = Some []
      then scan_parts L parts (st\<lparr>prompt_text := Some t\<rparr>)
      else scan_parts L parts st)"
| "scan_parts L (OtherPart # parts) st = scan_parts L parts st"

fun scan_contents ::
  "('page, 'img) libs \<Rightarrow> part list list \<Rightarrow> scan_state \<Rightarrow> response + scan_state" where
  "scan_contents L [] st = Inr st"
| "scan_contents L (parts # contents) st =
     (case scan_parts L parts st of
        Inl r \<Rightarrow> Inl r
      | Inr st' \<Rightarrow> scan_contents L contents st')"

text \<open>
  \<^verbatim>\<open>(prompt_text + "\n\n" + extracted_text) if prompt_text else extracted_text\<close>
\<close>

definition combined_text :: "pystr option \<Rightarrow> pystr \<Rightarrow> pystr" where
  "combined_text prompt extracted_text =
     (case prompt of
        None \<Rightarrow> extracted_text
      | Some p \<Rightarrow> if p \<noteq> [] then p @ str ''\<newline>\<newline>'' @ extracted_text else extracted_text)"

text \<open>\<^verbatim>\<open>x or default\<close> on an optional string\<close>

definition or_else :: "pystr option \<Rightarrow> pystr \<Rightarrow> pystr" where
  "or_else x dflt = (case x of None \<Rightarrow> dflt | Some s \<Rightarrow> if s \<noteq> [] then s else dflt)"

definition summarize_route :: "('page, 'img) libs \<Rightarrow> nlp \<Rightarrow> request \<Rightarrow> response" where
  "summarize_route L env req =
     (case req of
        InvalidJSON \<Rightarrow> HTTPException 400 (str ''Invalid JSON payload'')
      | Payload None \<Rightarrow> HTTPException 400 (str ''Missing 'contents' array'')
      | Payload (Some contents) \<Rightarrow>
          if contents = [] then HTTPException 400 (str ''Missing 'contents' array'')
          else
            (case scan_contents L contents
                    \<lparr>file_bytes = None, mime_type = None, prompt_text = None\<rparr> of
               Inl r \<Rightarrow> r
             | Inr st \<Rightarrow>
                 if file_bytes st = None \<or> file_bytes st = Some []
                 then HTTPException 400 (str ''No inline file data found'')
                 else
                   (case extract_text L (or_else (mime_type st) []) (the (file_bytes st)) of
                      Inl e \<Rightarrow> Unhandled
                    | Inr extracted_text \<Rightarrow>
                        if extracted_text = [] then NoTextResponse
                        else
                          (case extractive_summarize env
                                  (combined_text (prompt_text st) extracted_text) 4 of
                             Inl e \<Rightarrow> Unhandled
                           | Inr summary \<Rightarrow>
                               SummaryResponse summary (length extracted_text)
                                 (or_else (mime_type st) (str ''unknown''))))))"

section \<open>A concrete toolkit for the scenarios\<close>

text \<open>
  The concrete scenarios need the library's output on their texts. The stopwords are
  those of \<^verbatim>\<open>stopwords.words("english")\<close>, given by the entries made of letters
  only; every other entry of that list contains an apostrophe, which no normalized
  word does.
\<close>

definition english_stopwords :: "pystr list" where
  "english_stopwords = map str
     [''i'', ''me'', ''my'', ''myself'', ''we'', ''our'', ''ours'', ''ourselves'', ''you'',
      ''your'', ''yours'', ''yourself'', ''yourselves'', ''he'', ''him'', ''his'', ''himself'',
      ''she'', ''her'', ''hers'', ''herself'', ''it'', ''its'', ''itself'', ''they'', ''them'',
      ''their'', ''theirs'', ''themselves'', ''what'', ''which'', ''who'', ''whom'', ''this'',
      ''that'', ''these'', ''those'', ''am'', ''is'', ''are'', ''was'', ''were'', ''be'', ''been'',
      ''being'', ''have'', ''has'', ''had'', ''having'', ''do'', ''does'', ''did'', ''doing'',
      ''a'', ''an'', ''the'', ''and'', ''but'', ''if'', ''or'', ''because'', ''as'', ''until'',
      ''while'', ''of'', ''at'', ''by'', ''for'', ''with'', ''about'', ''against'', ''between'',
      ''into'', ''through'', ''during'', ''before'', ''after'', ''above'', ''below'', ''to'',
      ''from'', ''up'', ''down'', ''in'', ''out'', ''on'', ''off'', ''over'', ''under'', ''again'',
      ''further'', ''then'', ''once'', ''here'', ''there'', ''when'', ''where'', ''why'', ''how'',
      ''all'', ''any'', ''both'', ''each'', ''few'', ''more'', ''most'', ''other'', ''some'',
      ''such'', ''no'', ''nor'', ''not'', ''only'', ''own'', ''same'', ''so'', ''than'', ''too'',
      ''very'', ''s'', ''t'', ''can'', ''will'', ''just'', ''don'', ''should'', ''now'', ''d'',
      ''ll'', ''m'', ''o'', ''re'', ''ve'', ''y'', ''ain'', ''aren'', ''couldn'', ''didn'',
      ''doesn'', ''hadn'', ''hasn'', ''haven'', ''isn'', ''ma'', ''mightn'', ''mustn'', ''needn'',
      ''shan'', ''shouldn'', ''wasn'', ''weren'', ''won'', ''wouldn'']"

text \<open>
  The sentences of the scenario texts, and the tokens of each sentence as
  \<^verbatim>\<open>word_tokenize\<close> gives them: the words between blanks, and the full stop that ends
  the sentence as a token of its own.
\<close>

definition cats :: pystr where "cats = str ''Cats are mammals.''"
definition dogs :: pystr where "dogs = str ''Dogs are mammals too.''"
definition sky :: pystr where "sky = str ''The sky is blue.''"
definition water :: pystr where "water = str ''Water boils at 100 degrees.''"
definition birds :: pystr where "birds = str ''Birds fly.''"

definition cats_words :: "pystr list" where
  "cats_words = map str [''Cats'', ''are'', ''mammals'', ''.'']"
definition dogs_words :: "pystr list" where
  "dogs_words = map str [''Dogs'', ''are'', ''mammals'', ''too'', ''.'']"
definition sky_words :: "pystr list" where
  "sky_words = map str [''The'', ''sky'', ''is'', ''blue'', ''.'']"
definition water_words :: "pystr list" where
  "water_words = map str [''Water'', ''boils'', ''at'', ''100'', ''degrees'', ''.'']"
definition birds_words :: "pystr list" where
  "birds_words = map str [''Birds'', ''fly'', ''.'']"

text \<open>
  The texts: the four sentences of the concrete scenario; a prompt of one sentence
  before a document of four; a text of two sentences shorter than 50 characters; and
  the first sentence without its full stop. \<^verbatim>\<open>sent_tokenize\<close> splits each text after
  the full stops, and \<^verbatim>\<open>word_tokenize\<close> of a text gives the tokens of its sentences one
  after the other. The tables below hold these outputs; a text that is not in a table
  has no sentences and no tokens.
\<close>

definition scenario_text :: pystr where
  "scenario_text =
     str ''Cats are mammals. Dogs are mammals too. The sky is blue. Water boils at 100 degrees.''"

definition document_text :: pystr where
  "document_text =
     str ''Dogs are mammals too. The sky is blue. Water boils at 100 degrees. Birds fly.''"

definition prompted_text :: pystr where
  "prompted_text = cats @ str ''\<newline>\<newline>'' @ document_text"

definition short_text :: pystr where
  "short_text = str ''The sky is blue. Birds fly.''"

definition cats_unfinished :: pystr where
  "cats_unfinished = str ''Cats are mammals''"

definition scenario_sentences :: "(pystr \<times> pystr list) list" where
  "scenario_sentences =
     [(scenario_text, [cats, dogs, sky, water]),
      (prompted_text, [cats, dogs, sky, water, birds]),
      (document_text, [dogs, sky, water, birds]),
      (short_text, [sky, birds])]"

definition scenario_words :: "(pystr \<times> pystr list) list" where
  "scenario_words =
     [(cats, cats_words), (dogs, dogs_words), (sky, sky_words), (water, water_words),
      (birds, birds_words),
      (cats_unfinished, map str [''Cats'', ''are'', ''mammals'']),
      (scenario_text, cats_words @ dogs_words @ sky_words @ water_words),
      (prompted_text, cats_words @ dogs_words @ sky_words @ water_words @ birds_words),
      (document_text, dogs_words @ sky_words @ water_words @ birds_words),
      (short_text, sky_words @ birds_words)]"

definition scenario_nlp :: nlp where
  "scenario_nlp =
     \<lparr>word_tokenize = (\<lambda>t. case map_of scenario_words t of None \<Rightarrow> [] | Some ws \<Rightarrow> ws),
      sent_tokenize = (\<lambda>t. case map_of scenario_sentences t of None \<Rightarrow> [] | Some ss \<Rightarrow> ss),
      STOPWORDS = set english_stopwords\<rparr>"

text \<open>
  Libraries for the scenarios. The payload \<open>doc\<close> decodes to a PDF of two pages: the
  first raises when its text is asked for, the second holds the document text. Any
  other bytes are no PDF. An image is its own bytes, \<open>scan\<close> is the one image that
  opens, and its recognized text is the short text.
\<close>

definition scenario_libs :: "(pystr option, bytes) libs" where
  "scenario_libs =
     \<lparr>b64decode = (\<lambda>b. if b = str ''doc'' then Inr ''%PDF'' else Inl (Exception (str ''padding''))),
      PdfReader = (\<lambda>b. if b = ''%PDF'' then Inr [Inr None, Inr (Some document_text)]
                         else Inl (Exception (str ''no header''))),
      page_extract_text = (\<lambda>page. case page of
                                      None \<Rightarrow> Inl (Exception (str ''broken page''))
                                    | Some t \<Rightarrow> Inr (Some t)),
      Image_open = (\<lambda>b. if b = ''scan'' then Inr b else Inl UnidentifiedImageError),
      convert_RGB = (\<lambda>img. Inr img),
      image_to_string = (\<lambda>img. Inr (short_text @ str ''\<newline>''))\<rparr>"

section \<open>Selection: indices, slices and subsequences\<close>

lemma py_select_in_range:
  "\<forall>i\<in>set idxs. i < length xs \<Longrightarrow> py_select xs idxs = Inr (map ((!) xs) idxs)"
  by (induction idxs) (simp_all add: py_index_def)

lemma sorted_indices_upt:
  assumes "sorted idxs" "distinct idxs" "\<forall>i\<in>set idxs. i < n"
  shows "filter (\<lambda>i. i \<in> set idxs) [0..<n] = idxs"
proof (rule sorted_distinct_set_unique)
  show "sorted (filter (\<lambda>i. i \<in> set idxs) [0..<n])" by (rule sorted_wrt_filter) simp
  show "distinct (filter (\<lambda>i. i \<in> set idxs) [0..<n])" by simp
  show "sorted idxs" "distinct idxs" by fact+
  show "set (filter (\<lambda>i. i \<in> set idxs) [0..<n]) = set idxs" using assms(3) by auto
qed

lemma subseq_select:
  assumes "sorted idxs" "distinct idxs" "\<forall>i\<in>set idxs. i < length xs"
  shows "subseq (map ((!) xs) idxs) xs"
proof -
  have "subseq (filter (\<lambda>i. i \<in> set idxs) [0..<length xs]) [0..<length xs]"
    by simp
  then have "subseq idxs [0..<length xs]"
    by (simp only: sorted_indices_upt [OF assms])
  then have "subseq (map ((!) xs) idxs) (map ((!) xs) [0..<length xs])"
    by (rule subseq_map)
  then show ?thesis by (simp add: map_nth)
qed

lemma subseq_py_take: "subseq (py_take k xs) xs"
  by (simp add: py_take_def prefix_imp_subseq take_is_prefix)

lemma length_py_take: "0 \<le> k \<Longrightarrow> length (py_take k xs) = min (nat k) (length xs)"
  by (simp add: py_take_def)

lemma keys_score_sentences: "map fst (score_sentences env ss freq) = [0..<length ss]"
proof -
  have "map fst (score_sentences env ss freq) = map fst (enumerate 0 ss)"
    by (simp add: score_sentences_def case_prod_unfold comp_def)
  then show ?thesis by simp
qed

lemma set_sorted_desc: "set (sorted_desc scores) = set (map fst scores)"
  by (simp add: sorted_desc_def)

lemma length_sorted_desc: "length (sorted_desc scores) = length scores"
  by (simp add: sorted_desc_def)

lemma distinct_sorted_desc: "distinct (map fst scores) \<Longrightarrow> distinct (sorted_desc scores)"
  by (simp add: sorted_desc_def distinct_map)

lemma top_idxs_props:
  assumes "sel = sort (py_take k (sorted_desc (score_sentences env ss freq)))"
  shows "sorted sel" "distinct sel" "\<forall>i\<in>set sel. i < length ss"
    "0 \<le> k \<Longrightarrow> length sel = min (nat k) (length ss)"
proof -
  let ?sc = "score_sentences env ss freq"
  have d: "distinct (sorted_desc ?sc)"
    by (rule distinct_sorted_desc) (simp add: keys_score_sentences)
  have s: "set (sorted_desc ?sc) = {0..<length ss}"
    by (simp add: set_sorted_desc keys_score_sentences del: set_map)
  have sub: "set (py_take k (sorted_desc ?sc)) \<subseteq> set (sorted_desc ?sc)"
    by (simp add: py_take_def set_take_subset)
  have dt: "distinct (py_take k (sorted_desc ?sc))"
    using d by (simp add: py_take_def)
  show "sorted sel" by (simp add: assms)
  show "distinct sel" using dt by (simp add: assms)
  show "\<forall>i\<in>set sel. i < length ss" using sub s by (auto simp: assms)
  show "length sel = min (nat k) (length ss)" if "0 \<le> k"
    using that by (simp add: assms length_py_take length_sorted_desc score_sentences_def)
qed


lemma extractive_summarize_selection:
  assumes long: "\<not> (text = [] \<or> length (strip text) < 50)"
  shows "\<exists>sel. subseq sel (sent_tokenize env text) \<and>
           (int (length (sent_tokenize env text)) \<le> k \<longrightarrow> sel = sent_tokenize env text) \<and>
           (0 \<le> k \<and> k < int (length (sent_tokenize env text)) \<longrightarrow> length sel = nat k) \<and>
           extractive_summarize env text k = Inr (str_join (str ''\<newline>\<newline>'') sel)"
proof -
  let ?ss = "sent_tokenize env text"
  let ?freq = "build_word_freq env text"
  let ?top = "sort (py_take k (sorted_desc (score_sentences env ?ss ?freq)))"
  consider (all) "int (length ?ss) \<le> k"
    | (first) "\<not> int (length ?ss) \<le> k" "?freq = []"
    | (ranked) "\<not> int (length ?ss) \<le> k" "?freq \<noteq> []"
    by blast
  then show ?thesis
  proof cases
    case all
    with long have "extractive_summarize env text k = Inr (str_join (str ''\<newline>\<newline>'') ?ss)"
      by (simp add: extractive_summarize_def Let_def)
    with all show ?thesis by auto
  next
    case first
    with long have "extractive_summarize env text k =
        Inr (str_join (str ''\<newline>\<newline>'') (py_take k ?ss))"
      by (simp add: extractive_summarize_def Let_def)
    moreover have "0 \<le> k \<and> k < int (length ?ss) \<longrightarrow> length (py_take k ?ss) = nat k"
      by (auto simp: length_py_take)
    ultimately show ?thesis using first(1) subseq_py_take by blast
  next
    case ranked
    have range: "\<forall>i\<in>set ?top. i < length ?ss"
      by (rule top_idxs_props(3)) (rule refl)
    have "py_select ?ss ?top = Inr (map ((!) ?ss) ?top)"
      using range by (rule py_select_in_range)
    with long ranked have "extractive_summarize env text k =
        Inr (str_join (str ''\<newline>\<newline>'') (map ((!) ?ss) ?top))"
      by (simp add: extractive_summarize_def Let_def)
    moreover have "subseq (map ((!) ?ss) ?top) ?ss"
      using top_idxs_props(1,2) [OF refl] range by (rule subseq_select)
    moreover have "0 \<le> k \<and> k < int (length ?ss) \<longrightarrow> length (map ((!) ?ss) ?top) = nat k"
      using top_idxs_props(4) [OF refl, of k env ?ss ?freq] by auto
    ultimately show ?thesis using ranked(1) by blast
  qed
qed

section \<open>The frequency model and the scores\<close>

lemma normalize_word_chars:
  "ch \<in> set (normalize_word w) \<Longrightarrow> (97 \<le> ch \<and> ch \<le> 122) \<or> (48 \<le> ch \<and> ch \<le> 57)"
  by (auto simp: normalize_word_def is_alnum_def lower_def)

lemma dict_incr_entries:
  "(w, c) \<in> set (dict_incr k d) \<Longrightarrow>
     (w, c) \<in> set d \<or> (w = k \<and> (c = 1 \<or> (\<exists>c'. (k, c') \<in> set d \<and> c = c' + 1)))"
  by (induction k d rule: dict_incr.induct) (auto split: if_splits)

lemma dict_incr_keys: "fst ` set (dict_incr k d) = insert k (fst ` set d)"
  by (induction k d rule: dict_incr.induct) (auto split: if_splits)

lemma dict_incr_distinct: "distinct (map fst d) \<Longrightarrow> distinct (map fst (dict_incr k d))"
proof (induction k d rule: dict_incr.induct)
  case (1 k)
  then show ?case by simp
next
  case (2 k k' v kvs)
  then show ?case
    using dict_incr_keys [of k kvs] by (auto simp: image_iff)
qed

lemma build_word_freq_loop_entries:
  "\<forall>e\<in>set freq. model_entry env e \<Longrightarrow>
   \<forall>e\<in>set (build_word_freq_loop env ws freq). model_entry env e"
proof (induction ws arbitrary: freq)
  case Nil
  then show ?case by simp
next
  case (Cons w ws)
  show ?case
  proof (cases "normalize_word w = [] \<or> normalize_word w \<in> STOPWORDS env")
    case True
    then show ?thesis using Cons by (auto simp: Let_def)
  next
    case False
    have "\<forall>e\<in>set (dict_incr (normalize_word w) freq). model_entry env e"
    proof
      fix e assume e: "e \<in> set (dict_incr (normalize_word w) freq)"
      obtain k c where kc: "e = (k, c)" by (cases e)
      from dict_incr_entries [of k c "normalize_word w" freq] e kc
      consider "(k, c) \<in> set freq"
        | "k = normalize_word w" "c = 1"
        | c' where "k = normalize_word w" "(k, c') \<in> set freq" "c = c' + 1"
        by auto
      then show "model_entry env e"
      proof cases
        case 1
        then show ?thesis using Cons.prems kc by auto
      next
        case 2
        then show ?thesis using False kc normalize_word_chars [of _ w]
          by (auto simp: model_entry_def)
      next
        case 3
        with Cons.prems have "model_entry env (k, c')" by auto
        then show ?thesis using 3 kc by (auto simp: model_entry_def)
      qed
    qed
    from Cons.IH [OF this] False show ?thesis by (simp add: Let_def)
  qed
qed

lemma build_word_freq_loop_distinct:
  "distinct (map fst freq) \<Longrightarrow> distinct (map fst (build_word_freq_loop env ws freq))"
  by (induction ws arbitrary: freq) (auto simp: Let_def dict_incr_distinct)

lemma build_word_freq_entries: "\<forall>e\<in>set (build_word_freq env text). model_entry env e"
  unfolding build_word_freq_def by (rule build_word_freq_loop_entries) simp

lemma score_loop_sum:
  "map_of freq [] = None \<Longrightarrow>
   score_loop freq ws a =
     a + of_int (\<Sum>w\<leftarrow>ws. dict_get freq (normalize_word w) 0)"
  by (induction ws arbitrary: a) (simp_all add: Let_def dict_get_def)

lemma score_loop_append:
  "score_loop freq (ws @ [p]) a =
     (if normalize_word p = [] then score_loop freq ws a
      else score_loop freq ws a + of_int (dict_get freq (normalize_word p) 0))"
  by (induction ws arbitrary: a) (simp_all add: Let_def)

lemma no_empty_key: "\<forall>(w, c) \<in> set freq. w \<noteq> [] \<and> (0::int) < c \<Longrightarrow> map_of freq [] = None"
  by (metis (mono_tags, lifting) case_prodD map_of_SomeD not_Some_eq)

lemma dict_get_nonneg:
  "\<forall>(w, c) \<in> set freq. w \<noteq> [] \<and> (0::int) < c \<Longrightarrow> 0 \<le> dict_get freq k 0"
  by (fastforce simp: dict_get_def split: option.splits dest!: map_of_SomeD)

lemma nth_score_sentences:
  "i < length ss \<Longrightarrow> score_sentences env ss freq ! i = (i, sentence_score env freq (ss ! i))"
  by (simp add: score_sentences_def nth_enumerate_eq)

lemma stopword_count_zero:
  "nw \<in> STOPWORDS env \<Longrightarrow> dict_get (build_word_freq env text) nw 0 = 0"
proof (cases "map_of (build_word_freq env text) nw")
  case None
  then show ?thesis by (simp add: dict_get_def)
next
  case (Some c)
  then have "model_entry env (nw, c)"
    using build_word_freq_entries map_of_SomeD by fast
  moreover assume "nw \<in> STOPWORDS env"
  ultimately show ?thesis by (simp add: model_entry_def)
qed

section \<open>The extraction cascade\<close>

lemma pdf_pages_loop_pages:
  "pdf_pages_loop L (map Inr pages) texts =
     Inr (texts @ filter (\<lambda>t. t \<noteq> []) (map (page_text L) pages))"
  by (induction pages arbitrary: texts) (simp_all add: Let_def)

lemma extract_text_from_pdf_bytes_returns:
  "\<exists>text. extract_text_from_pdf_bytes L doc = Inr text"
  by (simp add: extract_text_from_pdf_bytes_def split: sum.splits)

lemma extract_text_from_image_bytes_returns:
  "\<exists>text. extract_text_from_image_bytes L doc = Inr text"
  by (simp add: extract_text_from_image_bytes_def split: sum.splits exn.splits)

lemma extract_text_cascade:
  "extract_text L mime doc =
     (if startswith mime (str ''image/'') then extract_text_from_image_bytes L doc
      else if extract_text_from_pdf_bytes L doc = Inr []
        then extract_text_from_image_bytes L doc
      else extract_text_from_pdf_bytes L doc)"
proof -
  obtain t where t: "extract_text_from_pdf_bytes L doc = Inr t"
    using extract_text_from_pdf_bytes_returns by blast
  have "\<not> startswith (str ''application/pdf'') (str ''image/'')"
    "\<not> startswith (str ''application/x-pdf'') (str ''image/'')"
    by (simp_all add: startswith_def str_def)
  then show ?thesis
    by (auto simp: extract_text_def Let_def t)
qed

section \<open>The route, step by step\<close>

lemma extractive_summarize_returns: "\<exists>summary. extractive_summarize env t k = Inr summary"
proof (cases "t = [] \<or> length (strip t) < 50")
  case True
  then show ?thesis by (simp add: extractive_summarize_def)
next
  case False
  from extractive_summarize_selection [OF False] show ?thesis by blast
qed

lemma scan_parts_error:
  "scan_parts L parts st = Inl r \<Longrightarrow> r = HTTPException 400 (str ''Invalid base64 data'')"
  by (induction L parts st rule: scan_parts.induct)
    (auto simp: Let_def split: option.splits if_splits sum.splits)

lemma scan_contents_error:
  "scan_contents L contents st = Inl r \<Longrightarrow> r = HTTPException 400 (str ''Invalid base64 data'')"
  by (induction contents arbitrary: st) (auto split: sum.splits dest: scan_parts_error)

lemma route_response:
  assumes "contents \<noteq> []"
    and "scan_contents L contents \<lparr>file_bytes = None, mime_type = None, prompt_text = None\<rparr> = Inr st"
    and "file_bytes st = Some doc" and "doc \<noteq> []"
    and "extract_text L (or_else (mime_type st) []) doc = Inr extracted" and "extracted \<noteq> []"
    and "extractive_summarize env (combined_text (prompt_text st) extracted) 4 = Inr summary"
  shows "summarize_route L env (Payload (Some contents)) =
    SummaryResponse summary (length extracted) (or_else (mime_type st) (str ''unknown''))"
  using assms by (simp add: summarize_route_def)

section \<open>The scenarios, evaluated\<close>

lemmas scenario_texts =
  cats_def dogs_def sky_def water_def birds_def scenario_text_def document_text_def
  prompted_text_def short_text_def cats_unfinished_def str_def

lemmas scenario_tokens =
  cats_words_def dogs_words_def sky_words_def water_words_def birds_words_def

lemma sentences_scenario_text:
  "sent_tokenize scenario_nlp scenario_text = [cats, dogs, sky, water]"
  by (simp add: scenario_nlp_def scenario_sentences_def scenario_texts)

lemma sentences_prompted_text:
  "sent_tokenize scenario_nlp prompted_text = [cats, dogs, sky, water, birds]"
  by (simp add: scenario_nlp_def scenario_sentences_def scenario_texts)

lemma sentences_short_text:
  "sent_tokenize scenario_nlp short_text = [sky, birds]"
  by (simp add: scenario_nlp_def scenario_sentences_def scenario_texts)

lemma words_scenario:
  "word_tokenize scenario_nlp cats = cats_words"
  "word_tokenize scenario_nlp dogs = dogs_words"
  "word_tokenize scenario_nlp sky = sky_words"
  "word_tokenize scenario_nlp water = water_words"
  "word_tokenize scenario_nlp birds = birds_words"
  "word_tokenize scenario_nlp scenario_text = cats_words @ dogs_words @ sky_words @ water_words"
  "word_tokenize scenario_nlp prompted_text =
     cats_words @ dogs_words @ sky_words @ water_words @ birds_words"
  by (simp_all add: scenario_nlp_def scenario_words_def scenario_texts)

lemma freq_scenario_text:
  "build_word_freq scenario_nlp scenario_text =
     [(str ''cats'', 1), (str ''mammals'', 2), (str ''dogs'', 1), (str ''sky'', 1),
      (str ''blue'', 1), (str ''water'', 1), (str ''boils'', 1), (str ''100'', 1),
      (str ''degrees'', 1)]"
  unfolding build_word_freq_def words_scenario
  by (simp add: scenario_tokens str_def normalize_word_def is_alnum_def lower_def
      scenario_nlp_def english_stopwords_def)


lemma freq_prompted_text:
  "build_word_freq scenario_nlp prompted_text =
     [(str ''cats'', 1), (str ''mammals'', 2), (str ''dogs'', 1), (str ''sky'', 1),
      (str ''blue'', 1), (str ''water'', 1), (str ''boils'', 1), (str ''100'', 1),
      (str ''degrees'', 1), (str ''birds'', 1), (str ''fly'', 1)]"
  unfolding build_word_freq_def words_scenario
  by (simp add: scenario_tokens str_def normalize_word_def is_alnum_def lower_def
      scenario_nlp_def english_stopwords_def)

lemma scores_scenario_text:
  "score_sentences scenario_nlp [cats, dogs, sky, water]
     (build_word_freq scenario_nlp scenario_text) =
   [(0, 3 / 5), (1, 1 / 2), (2, 1 / 3), (3, 4 / 7)]"
  unfolding freq_scenario_text score_sentences_def sentence_score_def
  by (simp add: enumerate_eq_zip words_scenario upt_rec scenario_tokens str_def normalize_word_def is_alnum_def
      lower_def dict_get_def)

lemma scores_prompted_text:
  "score_sentences scenario_nlp [cats, dogs, sky, water, birds]
     (build_word_freq scenario_nlp prompted_text) =
   [(0, 3 / 5), (1, 1 / 2), (2, 1 / 3), (3, 4 / 7), (4, 1 / 2)]"
  unfolding freq_prompted_text score_sentences_def sentence_score_def
  by (simp add: enumerate_eq_zip words_scenario upt_rec scenario_tokens str_def normalize_word_def is_alnum_def
      lower_def dict_get_def)

lemma long_scenario_text: "\<not> (scenario_text = [] \<or> length (strip scenario_text) < 50)"
  by (simp add: scenario_text_def str_def strip_def isspace_def)

lemma long_prompted_text: "\<not> (prompted_text = [] \<or> length (strip prompted_text) < 50)"
  by (simp add: scenario_texts strip_def isspace_def)

lemma summary_scenario_text:
  "extractive_summarize scenario_nlp scenario_text 2 =
     Inr (str_join (str ''\<newline>\<newline>'') [cats, water])"
proof -
  have "build_word_freq scenario_nlp scenario_text \<noteq> []"
    by (simp add: freq_scenario_text)
  then show ?thesis
    using long_scenario_text
    by (simp add: extractive_summarize_def sentences_scenario_text scores_scenario_text
        sorted_desc_def py_take_def py_index_def)
qed

lemma summary_prompted_text:
  "extractive_summarize scenario_nlp prompted_text 4 =
     Inr (str_join (str ''\<newline>\<newline>'') [cats, dogs, water, birds])"
proof -
  have "build_word_freq scenario_nlp prompted_text \<noteq> []"
    by (simp add: freq_prompted_text)
  then show ?thesis
    using long_prompted_text
    by (simp add: extractive_summarize_def sentences_prompted_text scores_prompted_text
        sorted_desc_def py_take_def py_index_def)
qed

lemma scenario_scan:
  "scan_contents scenario_libs
     [[TextPart cats, InlineData (Some (str ''application/pdf'')) (Some (str ''doc''))]]
     \<lparr>file_bytes = None, mime_type = None, prompt_text = None\<rparr> =
   Inr \<lparr>file_bytes = Some ''%PDF'', mime_type = Some (str ''application/pdf''),
        prompt_text = Some cats\<rparr>"
  by (simp add: scenario_libs_def str_def)

lemma document_text_facts:
  "strip document_text = document_text" "document_text \<noteq> []" "length document_text = 77"
  by (simp_all add: document_text_def str_def strip_def isspace_def)

lemma scenario_pdf:
  "extract_text_from_pdf_bytes scenario_libs ''%PDF'' = Inr document_text"
proof -
  have reader: "PdfReader scenario_libs ''%PDF'' = Inr (map Inr [None, Some document_text])"
    by (simp add: scenario_libs_def)
  have "extract_text_from_pdf_bytes scenario_libs ''%PDF'' =
      Inr (strip (str_join (str ''\<newline>'')
        (filter (\<lambda>t. t \<noteq> []) (map (page_text scenario_libs) [None, Some document_text]))))"
    unfolding extract_text_from_pdf_bytes_def reader pdf_pages_loop_pages by simp
  moreover have "page_text scenario_libs None = []"
    "page_text scenario_libs (Some document_text) = document_text"
    by (simp_all add: page_text_def scenario_libs_def)
  ultimately show ?thesis
    by (simp add: document_text_facts)
qed

lemma scenario_extract:
  "extract_text scenario_libs (str ''application/pdf'') ''%PDF'' = Inr document_text"
proof -
  have "\<not> startswith (str ''application/pdf'') (str ''image/'')"
    by (simp add: startswith_def str_def)
  then show ?thesis
    by (simp add: extract_text_cascade scenario_pdf document_text_facts)
qed

lemma scenario_or_else: "or_else (Some (str ''application/pdf'')) d = str ''application/pdf''"
  by (simp add: or_else_def str_def)

lemma scenario_route:
  "summarize_route scenario_libs scenario_nlp
     (Payload (Some [[TextPart cats,
        InlineData (Some (str ''application/pdf'')) (Some (str ''doc''))]])) =
   SummaryResponse (str_join (str ''\<newline>\<newline>'') [cats, dogs, water, birds]) 77
     (str ''application/pdf'')"
proof -
  let ?st = "\<lparr>file_bytes = Some ''%PDF'', mime_type = Some (str ''application/pdf''),
        prompt_text = Some cats\<rparr>"
  have "combined_text (prompt_text ?st) document_text = prompted_text"
    by (simp add: combined_text_def prompted_text_def cats_def str_def)
  then have "extractive_summarize scenario_nlp (combined_text (prompt_text ?st) document_text) 4 =
      Inr (str_join (str ''\<newline>\<newline>'') [cats, dogs, water, birds])"
    by (simp only: summary_prompted_text)
  from route_response [OF _ scenario_scan _ _ _ _ this, of "''%PDF''"] show ?thesis
    by (simp add: scenario_or_else scenario_extract document_text_facts)
qed

section \<open>Short-input passthrough\<close>

text \<open>
  C3: a text whose trimmed length is below 50 characters is returned trimmed and
  otherwise unchanged, for every sentence bound; neither tokenizer is consulted.
\<close>

theorem short_input_passthrough:
  "length (strip text) < 50 \<Longrightarrow> extractive_summarize env text max_sentences = Inr (strip text)"
  by (simp add: extractive_summarize_def)

theorem short_input_passthrough_witness:
  "length (strip short_text) < 50 \<and>
   extractive_summarize scenario_nlp short_text 4 = Inr (strip short_text)"
proof -
  have h: "length (strip short_text) < 50"
    by (simp add: short_text_def str_def strip_def isspace_def)
  from short_input_passthrough [OF h, of scenario_nlp 4] h show ?thesis
    by simp
qed

section \<open>Order of the selected sentences\<close>




section \<open>The sentence bound\<close>

text \<open>
  C2, as stated, fails on a short text: two sentences within the bound are returned
  as the text stands, with the blank between them, not joined by a blank line.
\<close>

theorem short_text_is_not_rejoined:
  "int (length (sent_tokenize scenario_nlp (str ''The sky is blue. Birds fly.''))) \<le> 2 \<and>
   extractive_summarize scenario_nlp (str ''The sky is blue. Birds fly.'') 2 \<noteq>
     Inr (str_join (str ''\<newline>\<newline>'')
            (sent_tokenize scenario_nlp (str ''The sky is blue. Birds fly.'')))"
proof -
  have short: "length (strip short_text) < 50"
    by (simp add: short_text_def str_def strip_def isspace_def)
  then have "extractive_summarize scenario_nlp short_text 2 = Inr (strip short_text)"
    by (simp add: extractive_summarize_def)
  moreover have "strip short_text \<noteq> str_join (str ''\<newline>\<newline>'') [sky, birds]"
    by (simp add: scenario_texts strip_def isspace_def)
  ultimately show ?thesis
    by (simp add: sentences_short_text flip: short_text_def)
qed

text \<open>
  C2, amended: for a text whose trimmed length is at least 50 characters and a bound
  of at least one, a text of no more sentences than the bound comes back as all its
  sentences joined by blank lines, and a text of more sentences comes back as at most
  the bound's number of its sentences, joined by blank lines.
\<close>

theorem sentence_bound_on_long_text:
  assumes "50 \<le> length (strip text)" and "1 \<le> max_sentences"
  shows "(int (length (sent_tokenize env text)) \<le> max_sentences \<longrightarrow>
            extractive_summarize env text max_sentences =
              Inr (str_join (str ''\<newline>\<newline>'') (sent_tokenize env text))) \<and>
         (max_sentences < int (length (sent_tokenize env text)) \<longrightarrow>
            (\<exists>sel. subseq sel (sent_tokenize env text) \<and> int (length sel) \<le> max_sentences \<and>
               extractive_summarize env text max_sentences =
                 Inr (str_join (str ''\<newline>\<newline>'') sel)))"
proof -
  from assms(1) have long: "\<not> (text = [] \<or> length (strip text) < 50)"
    by (auto simp: strip_def)
  from extractive_summarize_selection [OF long, of env max_sentences]
  obtain sel where sel: "subseq sel (sent_tokenize env text)"
    "int (length (sent_tokenize env text)) \<le> max_sentences \<longrightarrow> sel = sent_tokenize env text"
    "0 \<le> max_sentences \<and> max_sentences < int (length (sent_tokenize env text)) \<longrightarrow>
       length sel = nat max_sentences"
    "extractive_summarize env text max_sentences = Inr (str_join (str ''\<newline>\<newline>'') sel)"
    by blast
  show ?thesis
  proof (intro conjI impI)
    assume "int (length (sent_tokenize env text)) \<le> max_sentences"
    with sel show "extractive_summarize env text max_sentences =
        Inr (str_join (str ''\<newline>\<newline>'') (sent_tokenize env text))"
      by simp
  next
    assume "max_sentences < int (length (sent_tokenize env text))"
    with sel(3) assms(2) have "int (length sel) \<le> max_sentences" by simp
    with sel(1,4) show "\<exists>sel. subseq sel (sent_tokenize env text) \<and>
        int (length sel) \<le> max_sentences \<and>
        extractive_summarize env text max_sentences = Inr (str_join (str ''\<newline>\<newline>'') sel)"
      by blast
  qed
qed

theorem sentence_bound_on_long_text_witness:
  "50 \<le> length (strip scenario_text) \<and>
   int (length (sent_tokenize scenario_nlp scenario_text)) \<le> 4 \<and>
   extractive_summarize scenario_nlp scenario_text 4 =
     Inr (str_join (str ''\<newline>\<newline>'') (sent_tokenize scenario_nlp scenario_text)) \<and>
   2 < int (length (sent_tokenize scenario_nlp scenario_text)) \<and>
   (\<exists>sel. subseq sel (sent_tokenize scenario_nlp scenario_text) \<and> int (length sel) \<le> 2 \<and>
      extractive_summarize scenario_nlp scenario_text 2 = Inr (str_join (str ''\<newline>\<newline>'') sel))"
proof -
  have h: "50 \<le> length (strip scenario_text)"
    by (simp add: scenario_text_def str_def strip_def isspace_def)
  have n: "int (length (sent_tokenize scenario_nlp scenario_text)) \<le> 4"
    "2 < int (length (sent_tokenize scenario_nlp scenario_text))"
    by (simp_all add: sentences_scenario_text)
  from sentence_bound_on_long_text [OF h, of 4 scenario_nlp] n(1)
  have "extractive_summarize scenario_nlp scenario_text 4 =
      Inr (str_join (str ''\<newline>\<newline>'') (sent_tokenize scenario_nlp scenario_text))"
    by simp
  moreover from sentence_bound_on_long_text [OF h, of 2 scenario_nlp] n(2)
  have "\<exists>sel. subseq sel (sent_tokenize scenario_nlp scenario_text) \<and> int (length sel) \<le> 2 \<and>
      extractive_summarize scenario_nlp scenario_text 2 = Inr (str_join (str ''\<newline>\<newline>'') sel)"
    by simp
  ultimately show ?thesis
    using h n by (intro conjI)
qed

section \<open>The concrete scenario\<close>

text \<open>
  C4, as stated, fails: on the four sentences about cats, dogs, the sky and water the
  summarizer does not return the two sentences about mammals.
\<close>

theorem scenario_is_not_the_two_mammal_sentences:
  "extractive_summarize scenario_nlp
     (str ''Cats are mammals. Dogs are mammals too. The sky is blue. Water boils at 100 degrees.'') 2
   \<noteq> Inr (str ''Cats are mammals.\<newline>\<newline>Dogs are mammals too.'')"
  using summary_scenario_text
  by (simp add: scenario_texts)

text \<open>
  C4, amended: with a bound of two the summarizer returns the first and the fourth
  sentence, in that order: their scores are 3/5 and 4/7, above the 1/2 of the second
  sentence, whose five tokens hold the two stopwords \<open>are\<close> and \<open>too\<close>.
\<close>

theorem scenario_summary:
  "extractive_summarize scenario_nlp
     (str ''Cats are mammals. Dogs are mammals too. The sky is blue. Water boils at 100 degrees.'') 2
   = Inr (str ''Cats are mammals.\<newline>\<newline>Water boils at 100 degrees.'')"
  using summary_scenario_text
  by (simp add: scenario_texts)

section \<open>The sentence scorer\<close>

text \<open>
  C5: for a frequency model (keys not empty, counts positive) the score dictionary has
  the keys 0 to n - 1 in this order, one for each sentence; the score of sentence i is
  the sum over its tokens of the count of the normalized token, 0 where the model does
  not know it, divided by the number of tokens plus one; it is never negative, and it
  is 0 for a sentence without tokens.
\<close>

theorem sentence_scores_are_damped_frequency_sums:
  assumes model: "\<forall>(w, c) \<in> set freq. w \<noteq> [] \<and> 0 < c"
  shows "map fst (score_sentences env sentences freq) = [0..<length sentences] \<and>
    (\<forall>i<length sentences.
       score_sentences env sentences freq ! i =
         (i, of_int (\<Sum>w\<leftarrow>word_tokenize env (sentences ! i). dict_get freq (normalize_word w) 0)
             / of_nat (length (word_tokenize env (sentences ! i)) + 1)) \<and>
       0 \<le> snd (score_sentences env sentences freq ! i) \<and>
       (word_tokenize env (sentences ! i) = [] \<longrightarrow>
          snd (score_sentences env sentences freq ! i) = 0))"
proof (intro conjI allI impI)
  show "map fst (score_sentences env sentences freq) = [0..<length sentences]"
    by (rule keys_score_sentences)
next
  fix i assume i: "i < length sentences"
  let ?ws = "word_tokenize env (sentences ! i)"
  have sum: "sentence_score env freq (sentences ! i) =
      of_int (\<Sum>w\<leftarrow>?ws. dict_get freq (normalize_word w) 0) / of_nat (length ?ws + 1)"
    by (simp add: sentence_score_def Let_def score_loop_sum [OF no_empty_key [OF model]])
  show "score_sentences env sentences freq ! i =
      (i, of_int (\<Sum>w\<leftarrow>?ws. dict_get freq (normalize_word w) 0) / of_nat (length ?ws + 1))"
    using i sum by (simp add: nth_score_sentences)
  have "0 \<le> (\<Sum>w\<leftarrow>?ws. dict_get freq (normalize_word w) 0)"
    by (rule sum_list_nonneg) (auto simp: dict_get_nonneg [OF model])
  then show "0 \<le> snd (score_sentences env sentences freq ! i)"
    using i sum by (simp add: nth_score_sentences)
  show "snd (score_sentences env sentences freq ! i) = 0" if "?ws = []"
    using i that by (simp add: nth_score_sentences sentence_score_def)
qed

theorem sentence_scores_are_damped_frequency_sums_witness:
  "map fst (score_sentences scenario_nlp [cats, dogs] [(str ''cats'', 1), (str ''mammals'', 2)])
     = [0, 1] \<and>
   score_sentences scenario_nlp [cats, dogs] [(str ''cats'', 1), (str ''mammals'', 2)] ! 1
     = (1, 1 / 3)"
proof -
  let ?freq = "[(str ''cats'', 1), (str ''mammals'', 2 :: int)]"
  have h: "\<forall>(w, c) \<in> set ?freq. w \<noteq> [] \<and> 0 < c"
    by (simp add: str_def)
  have "(\<Sum>w\<leftarrow>dogs_words. dict_get ?freq (normalize_word w) 0) = 2"
    by (simp add: dogs_words_def str_def normalize_word_def is_alnum_def lower_def dict_get_def)
  moreover have "length dogs_words = 5"
    by (simp add: dogs_words_def)
  ultimately show ?thesis
    using sentence_scores_are_damped_frequency_sums [OF h, of scenario_nlp "[cats, dogs]"]
    by (simp add: words_scenario upt_rec)
qed

section \<open>The frequency model\<close>

text \<open>
  C6: the frequency model of a text is a dictionary in which no key is a stopword,
  however the token was written in the text, no key is empty, every key is made of
  lower-case ASCII letters and digits only, and every count is positive.
\<close>

theorem frequency_model_keys:
  "distinct (map fst (build_word_freq env text)) \<and>
   (\<forall>(w, c) \<in> set (build_word_freq env text).
      w \<notin> STOPWORDS env \<and> w \<noteq> [] \<and>
      (\<forall>ch\<in>set w. (97 \<le> ch \<and> ch \<le> 122) \<or> (48 \<le> ch \<and> ch \<le> 57)) \<and> 0 < c)"
proof
  show "distinct (map fst (build_word_freq env text))"
    by (simp add: build_word_freq_def build_word_freq_loop_distinct)
  show "\<forall>(w, c) \<in> set (build_word_freq env text).
      w \<notin> STOPWORDS env \<and> w \<noteq> [] \<and>
      (\<forall>ch\<in>set w. (97 \<le> ch \<and> ch \<le> 122) \<or> (48 \<le> ch \<and> ch \<le> 57)) \<and> 0 < c"
  proof clarify
    fix w c
    assume "(w, c) \<in> set (build_word_freq env text)"
    then have "model_entry env (w, c)"
      using build_word_freq_entries by blast
    then show "w \<notin> STOPWORDS env \<and> w \<noteq> [] \<and>
      (\<forall>ch\<in>set w. (97 \<le> ch \<and> ch \<le> 122) \<or> (48 \<le> ch \<and> ch \<le> 57)) \<and> 0 < c"
      by (simp add: model_entry_def)
  qed
qed

theorem frequency_model_keys_witness:
  "(str ''mammals'', 2) \<in> set (build_word_freq scenario_nlp scenario_text) \<and>
   str ''mammals'' \<notin> STOPWORDS scenario_nlp \<and>
   distinct (map fst (build_word_freq scenario_nlp scenario_text))"
proof -
  have "(str ''mammals'', 2) \<in> set (build_word_freq scenario_nlp scenario_text)"
    by (simp add: freq_scenario_text)
  with frequency_model_keys [of scenario_nlp scenario_text] show ?thesis
    by blast
qed

section \<open>Tokens that carry no count\<close>

text \<open>
  C10: the divisor of a score is the number of all tokens of the sentence plus one. A
  token whose normalization is empty, or is a stopword when the frequencies are those
  of a frequency model built by the program, adds nothing to the sum and one to the
  divisor: a sentence that has one such token more at its end has the same sum over a
  divisor greater by one, and a strictly lower score whenever the score was positive.
\<close>

theorem idle_token_lowers_score:
  assumes tokens: "word_tokenize env s' = word_tokenize env s @ [p]"
    and idle: "normalize_word p = [] \<or>
      (normalize_word p \<in> STOPWORDS env \<and> freq = build_word_freq env text)"
  shows "sentence_score env freq s =
           score_loop freq (word_tokenize env s) 0 / of_nat (length (word_tokenize env s) + 1) \<and>
         sentence_score env freq s' =
           score_loop freq (word_tokenize env s) 0 / of_nat (length (word_tokenize env s) + 2) \<and>
         (0 < sentence_score env freq s \<longrightarrow>
            sentence_score env freq s' < sentence_score env freq s)"
proof -
  let ?ws = "word_tokenize env s"
  let ?a = "score_loop freq ?ws 0"
  have same: "score_loop freq (?ws @ [p]) 0 = ?a"
    using idle by (auto simp: score_loop_append stopword_count_zero)
  have s: "sentence_score env freq s = ?a / of_nat (length ?ws + 1)"
    by (simp add: sentence_score_def Let_def)
  have s': "sentence_score env freq s' = ?a / of_nat (length ?ws + 2)"
    by (simp add: sentence_score_def Let_def tokens same)
  have "?a / of_nat (length ?ws + 2) < ?a / of_nat (length ?ws + 1)" if "0 < ?a"
    using that by (simp add: divide_strict_left_mono)
  moreover have "0 < ?a" if "0 < sentence_score env freq s"
    using that unfolding s by (simp add: zero_less_divide_iff)
  ultimately show ?thesis using s s' by simp
qed

theorem idle_token_lowers_score_witness:
  "word_tokenize scenario_nlp cats = word_tokenize scenario_nlp cats_unfinished @ [str ''.''] \<and>
   normalize_word (str ''.'') = [] \<and>
   0 < sentence_score scenario_nlp (build_word_freq scenario_nlp scenario_text) cats_unfinished \<and>
   sentence_score scenario_nlp (build_word_freq scenario_nlp scenario_text) cats <
     sentence_score scenario_nlp (build_word_freq scenario_nlp scenario_text) cats_unfinished"
proof -
  let ?freq = "build_word_freq scenario_nlp scenario_text"
  have unfinished: "word_tokenize scenario_nlp cats_unfinished = map str [''Cats'', ''are'', ''mammals'']"
    by (simp add: scenario_nlp_def scenario_words_def scenario_texts)
  then have tokens:
    "word_tokenize scenario_nlp cats = word_tokenize scenario_nlp cats_unfinished @ [str ''.'']"
    by (simp add: words_scenario cats_words_def)
  have idle: "normalize_word (str ''.'') = []"
    by (simp add: normalize_word_def is_alnum_def str_def)
  have positive: "0 < sentence_score scenario_nlp ?freq cats_unfinished"
    unfolding freq_scenario_text sentence_score_def unfinished
    by (simp add: str_def normalize_word_def is_alnum_def lower_def dict_get_def)
  from idle_token_lowers_score [OF tokens disjI1 [OF idle], of ?freq] positive tokens idle
  show ?thesis
    by blast
qed

section \<open>Extraction never raises\<close>

text \<open>
  C8: for every document, media type and behaviour of the libraries, the extractor
  returns a text. It returns the result of the image strategy when the media type
  starts with \<open>image/\<close> or the PDF strategy found no text, and the result of the PDF
  strategy otherwise. A reader that raises makes the PDF strategy return the empty
  text; a page that raises counts as a page without text and the pages after it are
  still read; an image that does not open, does not convert or is not recognized makes
  the image strategy return the empty text.
\<close>

theorem extract_text_never_raises:
  "(\<exists>text. extract_text L mime doc = Inr text) \<and>
   extract_text L mime doc =
     (if startswith mime (str ''image/'') then extract_text_from_image_bytes L doc
      else if extract_text_from_pdf_bytes L doc = Inr []
        then extract_text_from_image_bytes L doc
      else extract_text_from_pdf_bytes L doc) \<and>
   (\<forall>e. PdfReader L doc = Inl e \<longrightarrow> extract_text_from_pdf_bytes L doc = Inr []) \<and>
   (\<forall>pages. PdfReader L doc = Inr (map Inr pages) \<longrightarrow>
      extract_text_from_pdf_bytes L doc =
        Inr (strip (str_join (str ''\<newline>'') (filter (\<lambda>t. t \<noteq> []) (map (page_text L) pages))))) \<and>
   (\<forall>page e. page_extract_text L page = Inl e \<longrightarrow> page_text L page = []) \<and>
   (\<forall>e. Image_open L doc = Inl e \<longrightarrow> extract_text_from_image_bytes L doc = Inr []) \<and>
   (\<forall>opened e. Image_open L doc = Inr opened \<and> convert_RGB L opened = Inl e \<longrightarrow>
      extract_text_from_image_bytes L doc = Inr []) \<and>
   (\<forall>opened img e. Image_open L doc = Inr opened \<and> convert_RGB L opened = Inr img \<and>
      image_to_string L img = Inl e \<longrightarrow> extract_text_from_image_bytes L doc = Inr [])"
proof (intro conjI allI impI)
  show "\<exists>text. extract_text L mime doc = Inr text"
    using extract_text_from_pdf_bytes_returns [of L doc]
      extract_text_from_image_bytes_returns [of L doc]
    by (auto simp: extract_text_cascade)
  show "extract_text L mime doc =
     (if startswith mime (str ''image/'') then extract_text_from_image_bytes L doc
      else if extract_text_from_pdf_bytes L doc = Inr []
        then extract_text_from_image_bytes L doc
      else extract_text_from_pdf_bytes L doc)"
    by (rule extract_text_cascade)
  show "extract_text_from_pdf_bytes L doc = Inr []" if "PdfReader L doc = Inl e" for e
    using that by (simp add: extract_text_from_pdf_bytes_def)
  show "extract_text_from_pdf_bytes L doc =
        Inr (strip (str_join (str ''\<newline>'') (filter (\<lambda>t. t \<noteq> []) (map (page_text L) pages))))"
    if "PdfReader L doc = Inr (map Inr pages)" for pages
    using that by (simp add: extract_text_from_pdf_bytes_def pdf_pages_loop_pages)
  show "page_text L page = []" if "page_extract_text L page = Inl e" for page e
    using that by (simp add: page_text_def)
  show "extract_text_from_image_bytes L doc = Inr []" if "Image_open L doc = Inl e" for e
    using that by (simp add: extract_text_from_image_bytes_def split: exn.splits)
  show "extract_text_from_image_bytes L doc = Inr []"
    if "Image_open L doc = Inr opened \<and> convert_RGB L opened = Inl e" for opened e
    using that by (simp add: extract_text_from_image_bytes_def split: exn.splits)
  show "extract_text_from_image_bytes L doc = Inr []"
    if "Image_open L doc = Inr opened \<and> convert_RGB L opened = Inr img \<and>
      image_to_string L img = Inl e" for opened img e
    using that by (simp add: extract_text_from_image_bytes_def split: exn.splits)
qed

theorem extract_text_never_raises_witness:
  "PdfReader scenario_libs ''junk'' = Inl (Exception (str ''no header'')) \<and>
   extract_text_from_pdf_bytes scenario_libs ''junk'' = Inr [] \<and>
   Image_open scenario_libs ''junk'' = Inl UnidentifiedImageError \<and>
   extract_text_from_image_bytes scenario_libs ''junk'' = Inr [] \<and>
   extract_text scenario_libs (str ''application/pdf'') ''junk'' = Inr [] \<and>
   PdfReader scenario_libs ''%PDF'' = Inr (map Inr [None, Some document_text]) \<and>
   page_extract_text scenario_libs None = Inl (Exception (str ''broken page'')) \<and>
   page_text scenario_libs None = [] \<and>
   extract_text_from_pdf_bytes scenario_libs ''%PDF'' = Inr document_text \<and>
   extract_text_from_image_bytes
     (scenario_libs\<lparr>convert_RGB := \<lambda>img. Inl (Exception (str ''mode''))\<rparr>) ''scan'' = Inr [] \<and>
   extract_text_from_image_bytes
     (scenario_libs\<lparr>image_to_string := \<lambda>img. Inl (Exception (str ''engine''))\<rparr>) ''scan'' = Inr []"
proof -
  let ?pdf = "str ''application/pdf''"
  let ?no_rgb = "scenario_libs\<lparr>convert_RGB := \<lambda>img. Inl (Exception (str ''mode''))\<rparr>"
  let ?no_ocr = "scenario_libs\<lparr>image_to_string := \<lambda>img. Inl (Exception (str ''engine''))\<rparr>"
  note junk = extract_text_never_raises [of scenario_libs ?pdf "''junk''"]
  note pdf = extract_text_never_raises [of scenario_libs ?pdf "''%PDF''"]
  note rgb = extract_text_never_raises [of ?no_rgb ?pdf "''scan''"]
  note ocr = extract_text_never_raises [of ?no_ocr ?pdf "''scan''"]
  have reader: "PdfReader scenario_libs ''junk'' = Inl (Exception (str ''no header''))"
    by (simp add: scenario_libs_def)
  with junk have a: "extract_text_from_pdf_bytes scenario_libs ''junk'' = Inr []"
    by blast
  have image: "Image_open scenario_libs ''junk'' = Inl UnidentifiedImageError"
    by (simp add: scenario_libs_def)
  with junk have b: "extract_text_from_image_bytes scenario_libs ''junk'' = Inr []"
    by blast
  have "\<not> startswith ?pdf (str ''image/'')"
    by (simp add: startswith_def str_def)
  with junk a b have c: "extract_text scenario_libs ?pdf ''junk'' = Inr []"
    by simp
  have pages: "PdfReader scenario_libs ''%PDF'' = Inr (map Inr [None, Some document_text])"
    by (simp add: scenario_libs_def)
  have page: "page_extract_text scenario_libs None = Inl (Exception (str ''broken page''))"
    by (simp add: scenario_libs_def)
  with pdf have d: "page_text scenario_libs None = []"
    by blast
  from pdf pages have "extract_text_from_pdf_bytes scenario_libs ''%PDF'' =
      Inr (strip (str_join (str ''\<newline>'')
        (filter (\<lambda>t. t \<noteq> []) (map (page_text scenario_libs) [None, Some document_text]))))"
    by blast
  moreover have "page_text scenario_libs (Some document_text) = document_text"
    by (simp add: page_text_def scenario_libs_def)
  moreover have "document_text \<noteq> []" "strip document_text = document_text"
    by (simp_all add: document_text_def str_def strip_def isspace_def)
  ultimately have e: "extract_text_from_pdf_bytes scenario_libs ''%PDF'' = Inr document_text"
    using d by simp
  have "Image_open ?no_rgb ''scan'' = Inr ''scan'' \<and>
      convert_RGB ?no_rgb ''scan'' = Inl (Exception (str ''mode''))"
    by (simp add: scenario_libs_def)
  with rgb have f: "extract_text_from_image_bytes ?no_rgb ''scan'' = Inr []"
    by blast
  have "Image_open ?no_ocr ''scan'' = Inr ''scan'' \<and> convert_RGB ?no_ocr ''scan'' = Inr ''scan'' \<and>
      image_to_string ?no_ocr ''scan'' = Inl (Exception (str ''engine''))"
    by (simp add: scenario_libs_def)
  with ocr have g: "extract_text_from_image_bytes ?no_ocr ''scan'' = Inr []"
    by blast
  from reader a image b c pages page d e f g show ?thesis
    by (intro conjI)
qed

section \<open>The prompt\<close>

text \<open>
  C7, as stated, fails: with the prompt \<open>Cats are mammals.\<close> before a document of four
  other sentences, the route returns a summary whose first sentence is the prompt.
\<close>

theorem a_prompt_sentence_is_selected:
  "summarize_route scenario_libs scenario_nlp
     (Payload (Some [[TextPart (str ''Cats are mammals.''),
        InlineData (Some (str ''application/pdf'')) (Some (str ''doc''))]])) =
   SummaryResponse
     (str ''Cats are mammals.\<newline>\<newline>Dogs are mammals too.\<newline>\<newline>Water boils at 100 degrees.\<newline>\<newline>Birds fly.'')
     77 (str ''application/pdf'') \<and>
   extract_text scenario_libs (str ''application/pdf'') ''%PDF'' =
     Inr (str ''Dogs are mammals too. The sky is blue. Water boils at 100 degrees. Birds fly.'')"
  using scenario_route scenario_extract
  by (simp add: scenario_texts)

text \<open>
  C7, amended: a prompt that is present and not empty is put before the extracted
  text, a blank line between them, and the summarizer is given this one text: it
  counts the tokens and segments, scores and selects the sentences of the whole of
  it, those of the prompt like those of the document.
\<close>

theorem prompt_is_summarized_with_the_document:
  assumes "contents \<noteq> []"
    and "scan_contents L contents \<lparr>file_bytes = None, mime_type = None, prompt_text = None\<rparr> = Inr st"
    and "file_bytes st = Some doc" and "doc \<noteq> []"
    and "extract_text L (or_else (mime_type st) []) doc = Inr extracted" and "extracted \<noteq> []"
    and "prompt_text st = Some prompt" and "prompt \<noteq> []"
  shows "\<exists>summary.
      extractive_summarize env (prompt @ str ''\<newline>\<newline>'' @ extracted) 4 = Inr summary \<and>
      summarize_route L env (Payload (Some contents)) =
        SummaryResponse summary (length extracted) (or_else (mime_type st) (str ''unknown''))"
proof -
  have c: "combined_text (prompt_text st) extracted = prompt @ str ''\<newline>\<newline>'' @ extracted"
    using assms(7,8) by (simp add: combined_text_def)
  obtain summary
    where s: "extractive_summarize env (prompt @ str ''\<newline>\<newline>'' @ extracted) 4 = Inr summary"
    using extractive_summarize_returns by blast
  with route_response [OF assms(1-6), of env summary] c show ?thesis
    by simp
qed

theorem prompt_is_summarized_with_the_document_witness:
  "\<exists>summary.
      extractive_summarize scenario_nlp (cats @ str ''\<newline>\<newline>'' @ document_text) 4 = Inr summary \<and>
      summarize_route scenario_libs scenario_nlp
        (Payload (Some [[TextPart cats,
           InlineData (Some (str ''application/pdf'')) (Some (str ''doc''))]])) =
        SummaryResponse summary 77 (str ''application/pdf'')"
proof -
  let ?st = "\<lparr>file_bytes = Some ''%PDF'', mime_type = Some (str ''application/pdf''),
        prompt_text = Some cats\<rparr>"
  have ex: "extract_text scenario_libs (or_else (mime_type ?st) []) ''%PDF'' = Inr document_text"
    by (simp add: scenario_or_else scenario_extract)
  have cats: "cats \<noteq> []"
    by (simp add: cats_def str_def)
  from prompt_is_summarized_with_the_document
    [OF _ scenario_scan _ _ ex document_text_facts(2) _ cats, of scenario_nlp]
  show ?thesis
    by (simp add: scenario_or_else document_text_facts)
qed

section \<open>The sentence bound of the route\<close>

text \<open>
  C9: the route answers with a summary exactly when the payload holds contents, the
  scan finds document bytes and the extracted text is not empty, and the summary is
  then the result of the summarizer on the combined text with the bound 4, whatever
  else the request holds.
\<close>

theorem route_summarizes_with_bound_four:
  "summarize_route L env req = SummaryResponse summary n m \<longleftrightarrow>
     (\<exists>contents st doc extracted.
        req = Payload (Some contents) \<and> contents \<noteq> [] \<and>
        scan_contents L contents \<lparr>file_bytes = None, mime_type = None, prompt_text = None\<rparr> = Inr st \<and>
        file_bytes st = Some doc \<and> doc \<noteq> [] \<and>
        extract_text L (or_else (mime_type st) []) doc = Inr extracted \<and> extracted \<noteq> [] \<and>
        extractive_summarize env (combined_text (prompt_text st) extracted) 4 = Inr summary \<and>
        n = length extracted \<and> m = or_else (mime_type st) (str ''unknown''))"
proof
  assume r: "summarize_route L env req = SummaryResponse summary n m"
  then obtain contents where req: "req = Payload (Some contents)" and ne: "contents \<noteq> []"
    by (auto simp: summarize_route_def split: request.splits option.splits if_splits)
  let ?init = "\<lparr>file_bytes = None, mime_type = None, prompt_text = None\<rparr>"
  from r req ne obtain st where st: "scan_contents L contents ?init = Inr st"
    by (cases "scan_contents L contents ?init")
      (auto simp: summarize_route_def dest: scan_contents_error)
  from r req ne st obtain doc where doc: "file_bytes st = Some doc" "doc \<noteq> []"
    by (cases "file_bytes st") (auto simp: summarize_route_def split: if_splits)
  from r req ne st doc obtain extracted
    where ex: "extract_text L (or_else (mime_type st) []) doc = Inr extracted" "extracted \<noteq> []"
    by (cases "extract_text L (or_else (mime_type st) []) doc")
      (auto simp: summarize_route_def split: if_splits)
  from r req ne st doc ex
  have "extractive_summarize env (combined_text (prompt_text st) extracted) 4 = Inr summary \<and>
        n = length extracted \<and> m = or_else (mime_type st) (str ''unknown'')"
    by (cases "extractive_summarize env (combined_text (prompt_text st) extracted) 4")
      (auto simp: summarize_route_def)
  with req ne st doc ex show "\<exists>contents st doc extracted.
        req = Payload (Some contents) \<and> contents \<noteq> [] \<and>
        scan_contents L contents ?init = Inr st \<and>
        file_bytes st = Some doc \<and> doc \<noteq> [] \<and>
        extract_text L (or_else (mime_type st) []) doc = Inr extracted \<and> extracted \<noteq> [] \<and>
        extractive_summarize env (combined_text (prompt_text st) extracted) 4 = Inr summary \<and>
        n = length extracted \<and> m = or_else (mime_type st) (str ''unknown'')"
    by blast
next
  assume "\<exists>contents st doc extracted.
        req = Payload (Some contents) \<and> contents \<noteq> [] \<and>
        scan_contents L contents \<lparr>file_bytes = None, mime_type = None, prompt_text = None\<rparr> = Inr st \<and>
        file_bytes st = Some doc \<and> doc \<noteq> [] \<and>
        extract_text L (or_else (mime_type st) []) doc = Inr extracted \<and> extracted \<noteq> [] \<and>
        extractive_summarize env (combined_text (prompt_text st) extracted) 4 = Inr summary \<and>
        n = length extracted \<and> m = or_else (mime_type st) (str ''unknown'')"
  then show "summarize_route L env req = SummaryResponse summary n m"
    using route_response by blast
qed

theorem route_summarizes_with_bound_four_witness:
  "summarize_route scenario_libs scenario_nlp
     (Payload (Some [[TextPart cats,
        InlineData (Some (str ''application/pdf'')) (Some (str ''doc''))]])) =
   SummaryResponse (str_join (str ''\<newline>\<newline>'') [cats, dogs, water, birds]) 77
     (str ''application/pdf'') \<and>
   extractive_summarize scenario_nlp prompted_text 4 =
     Inr (str_join (str ''\<newline>\<newline>'') [cats, dogs, water, birds])"
proof -
  let ?st = "\<lparr>file_bytes = Some ''%PDF'', mime_type = Some (str ''application/pdf''),
        prompt_text = Some cats\<rparr>"
  let ?contents = "[[TextPart cats, InlineData (Some (str ''application/pdf'')) (Some (str ''doc''))]]"
  have c: "combined_text (prompt_text ?st) document_text = prompted_text"
    by (simp add: combined_text_def prompted_text_def cats_def str_def)
  have "\<exists>contents st doc extracted.
        Payload (Some ?contents) = Payload (Some contents) \<and> contents \<noteq> [] \<and>
        scan_contents scenario_libs contents
          \<lparr>file_bytes = None, mime_type = None, prompt_text = None\<rparr> = Inr st \<and>
        file_bytes st = Some doc \<and> doc \<noteq> [] \<and>
        extract_text scenario_libs (or_else (mime_type st) []) doc = Inr extracted \<and>
        extracted \<noteq> [] \<and>
        extractive_summarize scenario_nlp (combined_text (prompt_text st) extracted) 4 =
          Inr (str_join (str ''\<newline>\<newline>'') [cats, dogs, water, birds]) \<and>
        77 = length extracted \<and> str ''application/pdf'' = or_else (mime_type st) (str ''unknown'')"
    apply (rule exI [of _ ?contents])
    apply (rule exI [of _ ?st])
    apply (rule exI [of _ "''%PDF''"])
    apply (rule exI [of _ document_text])
    apply (simp only: c scenario_scan summary_prompted_text)
    apply (simp add: scenario_or_else scenario_extract document_text_facts)
    done
  then show ?thesis
    using route_summarizes_with_bound_four
      [of scenario_libs scenario_nlp "Payload (Some ?contents)"
        "str_join (str ''\<newline>\<newline>'') [cats, dogs, water, birds]" 77 "str ''application/pdf''"]
      summary_prompted_text
    by blast
qed

end
